theory Spec2Isabelle
  imports Main
begin

section \<open>Data model\<close>

text \<open>
  Package \<open>db\<close> keeps two tables. \<open>main.person\<close> lives in the database file
  (\<open>id INTEGER PRIMARY KEY, name TEXT NOT NULL, numUpdates INTEGER DEFAULT 0\<close>);
  \<open>mem.sessionActivity\<close> lives in the shared in-memory database
  (\<open>id INTEGER PRIMARY KEY, personId INTEGER NOT NULL, dateTime DATETIME DEFAULT
  CURRENT_TIMESTAMP\<close>). Tables are lists of rows in insertion order, so that the
  primary key of \<open>person\<close> is a property to be proved and not a property of the type.
  \<open>CURRENT_TIMESTAMP\<close> is a number of seconds; integer columns are unbounded integers
  (a counter would need \<open>2^63\<close> updates to leave the range of an SQLite INTEGER).
\<close>

record person_row =
  p_id :: int
  p_name :: string
  p_numUpdates :: int

record activity_row =
  a_id :: int
  a_personId :: int
  a_dateTime :: nat

text \<open>A value bound to a named placeholder: the Go code binds \<open>int\<close> and \<open>string\<close>.\<close>

datatype sqlval = SqlInt int | SqlText string

type_synonym args = "string \<rightharpoonup> sqlval"

text \<open>
  The four statement texts of \<open>preparedStatements()\<close>, as compiled statements. Their
  meaning is given by \<open>run_stmt\<close> and \<open>getSessionActivity_sql\<close> below.
\<close>

datatype stmt =
  InsertPersonSql | UpdatePersonSql | RecordSessionActivitySql | GetSessionActivitySql

text \<open>
  The state of the process and of the backend it talks to.
  \<^item> \<open>drivers\<close>: the names registered with \<open>database/sql\<close> (a process-wide registry);
  \<^item> \<open>connected\<close>: \<open>dbConn\<close> is open;
  \<^item> \<open>maxIdleConns\<close>: the pool's idle-connection ceiling;
  \<^item> \<open>attached\<close>: the connection has the shared memory database attached as \<open>mem\<close>;
  \<^item> \<open>person\<close>: the rows of \<open>main.person\<close> (none while the table does not exist yet:
    \<open>CREATE TABLE IF NOT EXISTS\<close> makes the two cases alike);
  \<^item> \<open>sessionActivity\<close>: the rows of \<open>mem.sessionActivity\<close>, \<open>None\<close> while that table
    does not exist;
  \<^item> \<open>clock\<close>: the backend's \<open>CURRENT_TIMESTAMP\<close>;
  \<^item> \<open>faults\<close>: what the backend will do to the coming invocations, one entry each:
    \<open>Some e\<close> makes the invocation fail with error \<open>e\<close>, \<open>None\<close> lets it run; once the
    list is used up every invocation runs.
  One connection stands for the pool: the model is sequential.
\<close>

record world =
  drivers :: "string list"
  connected :: bool
  maxIdleConns :: nat
  attached :: bool
  person :: "person_row list"
  sessionActivity :: "activity_row list option"
  clock :: nat
  faults :: "string option list"

text \<open>\<open>EdDb\<close>: the statement cache; its \<open>dbConn\<close> is the connection of the world.\<close>

record EdDb =
  statements :: "string \<rightharpoonup> stmt"

text \<open>
  How a call ends: it returns to its caller, or \<open>log.Fatal\<close> prints its message and
  exits the process, or the Go runtime panics. Each carries the state left behind.
\<close>

datatype 'a outcome =
  Returned 'a world
| Fatal string world
| Panic string world

fun world_of :: "'a outcome \<Rightarrow> world" where
  "world_of (Returned _ w) = w"
| "world_of (Fatal _ w) = w"
| "world_of (Panic _ w) = w"

fun is_Returned :: "'a outcome \<Rightarrow> bool" where
  "is_Returned (Returned _ _) = True"
| "is_Returned _ = False"

section \<open>The backend\<close>

definition next_fault :: "world \<Rightarrow> string option" where
  "next_fault w = (case faults w of [] \<Rightarrow> None | f # _ \<Rightarrow> f)"

definition consume :: "world \<Rightarrow> world" where
  "consume w = w\<lparr>faults := tl (faults w)\<rparr>"

text \<open>The coming \<open>n\<close> invocations run.\<close>

definition healthy :: "nat \<Rightarrow> world \<Rightarrow> bool" where
  "healthy n w \<longleftrightarrow> (\<forall>f \<in> set (take n (faults w)). f = None)"

text \<open>Time passes between calls.\<close>

definition tick :: "nat \<Rightarrow> world \<Rightarrow> world" where
  "tick d w = w\<lparr>clock := clock w + d\<rparr>"

subsection \<open>The three writing statements\<close>

text \<open>
  \<^verbatim>\<open>INSERT OR IGNORE INTO person (id, name) VALUES(:id, :name)\<close>:
  a row whose id is taken is ignored; \<open>numUpdates\<close> takes its default 0.
  Each statement yields the number of rows it changed.
\<close>

definition insertPerson_sql :: "args \<Rightarrow> world \<Rightarrow> (string + nat) \<times> world" where
  "insertPerson_sql a w =
     (case (a ''id'', a ''name'') of
        (Some (SqlInt i), Some (SqlText n)) \<Rightarrow>
          if i \<in> set (map p_id (person w)) then (Inr 0, w)
          else (Inr 1, w\<lparr>person := person w @
                  [\<lparr>p_id = i, p_name = n, p_numUpdates = 0\<rparr>]\<rparr>)
      | _ \<Rightarrow> (Inl ''could not bind the parameters of insertPerson'', w))"

text \<open>
  \<^verbatim>\<open>UPDATE person SET name=:name, numUpdates=numUpdates + 1 WHERE id=:id\<close>
\<close>

definition updatePerson_sql :: "args \<Rightarrow> world \<Rightarrow> (string + nat) \<times> world" where
  "updatePerson_sql a w =
     (case (a ''id'', a ''name'') of
        (Some (SqlInt i), Some (SqlText n)) \<Rightarrow>
          (Inr (length (filter (\<lambda>r. p_id r = i) (person w))),
           w\<lparr>person := map (\<lambda>r. if p_id r = i
                                  then r\<lparr>p_name := n, p_numUpdates := p_numUpdates r + 1\<rparr>
                                  else r) (person w)\<rparr>)
      | _ \<Rightarrow> (Inl ''could not bind the parameters of updatePerson'', w))"

text \<open>The id SQLite gives a new row of an \<open>INTEGER PRIMARY KEY\<close> table.\<close>

definition next_rowid :: "activity_row list \<Rightarrow> int" where
  "next_rowid evs = (if evs = [] then 1 else Max (set (map a_id evs)) + 1)"

text \<open>
  \<^verbatim>\<open>INSERT INTO sessionActivity (personId) VALUES(:personId)\<close>:
  the table has no foreign key, so any \<open>personId\<close> is stored; \<open>dateTime\<close> takes its
  default, the current timestamp.
\<close>

definition recordSessionActivity_sql :: "args \<Rightarrow> world \<Rightarrow> (string + nat) \<times> world" where
  "recordSessionActivity_sql a w =
     (case sessionActivity w of
        None \<Rightarrow> (Inl ''no such table: sessionActivity'', w)
      | Some evs \<Rightarrow>
          (case a ''personId'' of
             Some (SqlInt i) \<Rightarrow>
               (Inr 1, w\<lparr>sessionActivity := Some (evs @
                  [\<lparr>a_id = next_rowid evs, a_personId = i, a_dateTime = clock w\<rparr>])\<rparr>)
           | _ \<Rightarrow> (Inl ''could not bind the parameters of recordSessionActivity'', w)))"

subsection \<open>The report query\<close>

text \<open>
  \<^verbatim>\<open>
  SELECT main.person.name as personName, main.person.id as personId,
         mem.sessionActivity.dateTime as dateTime, count(*) as numItems
  FROM mem.sessionActivity
  LEFT OUTER JOIN main.person ON mem.sessionActivity.personId = main.person.id
  GROUP BY main.person.id
  ORDER BY mem.sessionActivity.dateTime ASC
  \<close>
  A result row; the two \<open>person\<close> columns are NULL (\<open>None\<close>) where the join found no
  person.
\<close>

record report_row =
  r_personName :: "string option"
  r_personId :: "int option"
  r_dateTime :: nat
  r_numItems :: int

type_synonym joined = "activity_row \<times> person_row option"

text \<open>
  \<open>LEFT OUTER JOIN ... ON personId = person.id\<close>: every event is kept, with each
  person of its \<open>personId\<close>, or with NULLs where there is none.
\<close>

definition matches :: "activity_row \<Rightarrow> person_row list \<Rightarrow> joined list" where
  "matches e ps =
     (case filter (\<lambda>p. p_id p = a_personId e) ps of
        [] \<Rightarrow> [(e, None)]
      | ms \<Rightarrow> map (\<lambda>p. (e, Some p)) ms)"

definition left_outer_join :: "activity_row list \<Rightarrow> person_row list \<Rightarrow> joined list" where
  "left_outer_join evs ps = concat (map (\<lambda>e. matches e ps) evs)"

text \<open>\<open>GROUP BY main.person.id\<close>: the rows without a person all have the key NULL.\<close>

definition group_key :: "joined \<Rightarrow> int option" where
  "group_key j = map_option p_id (snd j)"

definition group_by :: "joined list \<Rightarrow> joined list list" where
  "group_by js = map (\<lambda>k. filter (\<lambda>j. group_key j = k) js) (remdups (map group_key js))"

text \<open>
  \<open>name\<close> and \<open>dateTime\<close> are bare columns of an aggregate query: SQLite takes them
  from one row of the group and leaves open which. The engine's choice is the
  parameter \<open>bare\<close>, the index of that row (taken modulo the size of the group).
\<close>

definition bare_row :: "(joined list \<Rightarrow> nat) \<Rightarrow> joined list \<Rightarrow> joined" where
  "bare_row bare g = g ! (bare g mod length g)"

text \<open>Two engines: one takes the bare columns from the first row of a group, one from
  the last.\<close>

definition first_of_group :: "joined list \<Rightarrow> nat" where
  "first_of_group g = 0"

definition last_of_group :: "joined list \<Rightarrow> nat" where
  "last_of_group g = length g - 1"

definition select_row :: "(joined list \<Rightarrow> nat) \<Rightarrow> joined list \<Rightarrow> report_row" where
  "select_row bare g =
     (case bare_row bare g of (e, p) \<Rightarrow>
        \<lparr>r_personName = map_option p_name p,
         r_personId = map_option p_id p,
         r_dateTime = a_dateTime e,
         r_numItems = int (length g)\<rparr>)"

text \<open>
  \<open>ORDER BY dateTime ASC\<close> sorts the rows of the result by the \<open>dateTime\<close> each one
  shows. SQL leaves the order of rows with equal keys open; the model keeps them in
  the order of the groups.
\<close>

definition getSessionActivity_sql ::
  "(joined list \<Rightarrow> nat) \<Rightarrow> world \<Rightarrow> string + report_row list" where
  "getSessionActivity_sql bare w =
     (case sessionActivity w of
        None \<Rightarrow> Inl ''no such table: mem.sessionActivity''
      | Some evs \<Rightarrow>
          Inr (sort_key r_dateTime
                 (map (select_row bare) (group_by (left_outer_join evs (person w))))))"

subsection \<open>Invoking a prepared statement\<close>

definition run_stmt :: "stmt \<Rightarrow> args \<Rightarrow> world \<Rightarrow> (string + nat) \<times> world" where
  "run_stmt st a w =
     (case st of
        InsertPersonSql \<Rightarrow> insertPerson_sql a w
      | UpdatePersonSql \<Rightarrow> updatePerson_sql a w
      | RecordSessionActivitySql \<Rightarrow> recordSessionActivity_sql a w
      | GetSessionActivitySql \<Rightarrow>
          (case sessionActivity w of
             None \<Rightarrow> (Inl ''no such table: mem.sessionActivity'', w)
           | Some _ \<Rightarrow> (Inr 0, w)))"

text \<open>
  \<open>(*sqlx.NamedStmt).Exec\<close>: fails on a closed pool and when the backend fails the
  invocation (which then changes nothing); runs the statement otherwise.
\<close>

definition NamedStmt_Exec :: "stmt \<Rightarrow> args \<Rightarrow> world \<Rightarrow> (string + nat) \<times> world" where
  "NamedStmt_Exec st a w =
     (if \<not> connected w then (Inl ''sql: database is closed'', w)
      else case next_fault w of
             Some e \<Rightarrow> (Inl e, consume w)
           | None \<Rightarrow> run_stmt st a (consume w))"

text \<open>\<open>(*sqlx.NamedStmt).Query\<close>: the rows of a SELECT; no rows from the others.\<close>

definition NamedStmt_Query ::
  "(joined list \<Rightarrow> nat) \<Rightarrow> stmt \<Rightarrow> args \<Rightarrow> world \<Rightarrow> (string + report_row list) \<times> world" where
  "NamedStmt_Query bare st a w =
     (if \<not> connected w then (Inl ''sql: database is closed'', w)
      else case next_fault w of
             Some e \<Rightarrow> (Inl e, consume w)
           | None \<Rightarrow>
               (case st of
                  GetSessionActivitySql \<Rightarrow> (getSessionActivity_sql bare (consume w), consume w)
                | _ \<Rightarrow> (case run_stmt st a (consume w) of
                          (Inl e, w1) \<Rightarrow> (Inl e, w1)
                        | (Inr _, w1) \<Rightarrow> (Inr [], w1))))"

section \<open>Opening the database\<close>

text \<open>
  \<open>sql.Register\<close> of \<open>database/sql\<close>: registering a name twice panics (\<open>None\<close>).
\<close>

definition sql_Register :: "string \<Rightarrow> world \<Rightarrow> world option" where
  "sql_Register name w =
     (if name \<in> set (drivers w) then None else Some (w\<lparr>drivers := name # drivers w\<rparr>))"

definition driverName :: string where
  "driverName = ''sqlite3ConnectionCatchingDriver''"

definition dbURI :: "string \<Rightarrow> string" where
  "dbURI dbFilename = ''file:'' @ dbFilename @ ''?cache=shared&busy_timeout=60000''"

text \<open>
  The \<open>ConnectHook\<close> closure of \<open>New\<close>: it sends the ATTACH command, drops what
  \<open>newConn.Exec\<close> returns, prints a line (console output is not modelled) and returns
  \<open>nil\<close>. The command attaches the memory database unless the backend fails it.
\<close>

definition ConnectHook :: "world \<Rightarrow> string option \<times> world" where
  "ConnectHook w =
     (case next_fault w of
        Some e \<Rightarrow> (None, consume w)
      | None \<Rightarrow> (None, (consume w)\<lparr>attached := True\<rparr>))"

text \<open>
  The driver opens a connection and runs the hook on it; when the hook returns an
  error the driver closes the connection and returns that error.
\<close>

definition driver_Open :: "world \<Rightarrow> string option \<times> world" where
  "driver_Open w =
     (case next_fault w of
        Some e \<Rightarrow> (Some e, consume w)
      | None \<Rightarrow>
          (case ConnectHook ((consume w)\<lparr>attached := False\<rparr>) of
             (Some e, w1) \<Rightarrow> (Some e, w1\<lparr>attached := False\<rparr>)
           | (None, w1) \<Rightarrow> (None, w1\<lparr>connected := True\<rparr>)))"

text \<open>\<open>sqlx.Connect\<close>: \<open>sql.Open\<close> looks the driver up, \<open>Ping\<close> opens a connection.\<close>

definition sqlx_Connect :: "string \<Rightarrow> string \<Rightarrow> world \<Rightarrow> string option \<times> world" where
  "sqlx_Connect name dsn w =
     (if name \<notin> set (drivers w) then (Some (''sql: unknown driver '' @ name), w)
      else driver_Open w)"

definition SetMaxIdleConns :: "nat \<Rightarrow> world \<Rightarrow> world" where
  "SetMaxIdleConns n w = w\<lparr>maxIdleConns := n\<rparr>"

definition DB_Close :: "world \<Rightarrow> world" where
  "DB_Close w = w\<lparr>connected := False\<rparr>"

text \<open>\<open>dbConn.Exec\<close> of a command that changes no table (the PRAGMA).\<close>

definition DB_Exec :: "world \<Rightarrow> string option \<times> world" where
  "DB_Exec w = (next_fault w, consume w)"

text \<open>
  \<open>initDbSchema\<close>: one \<open>Exec\<close> of the two CREATE TABLE commands. \<open>main.person\<close> is
  created if it does not exist; \<open>mem.sessionActivity\<close> is created, which fails where
  no database \<open>mem\<close> is attached and where the table exists.
\<close>

definition initDbSchema :: "world \<Rightarrow> string option \<times> world" where
  "initDbSchema w =
     (case next_fault w of
        Some e \<Rightarrow> (Some e, consume w)
      | None \<Rightarrow>
          if \<not> attached w then (Some ''unknown database mem'', consume w)
          else (case sessionActivity w of
                  Some _ \<Rightarrow> (Some ''table sessionActivity already exists'', consume w)
                | None \<Rightarrow> (None, (consume w)\<lparr>sessionActivity := Some []\<rparr>)))"

text \<open>
  \<open>preparedStatements()\<close>: title and statement. Go ranges over the map in an order
  of its own; the list fixes one.
\<close>

definition preparedStatements :: "(string \<times> stmt) list" where
  "preparedStatements =
     [(''insertPerson'', InsertPersonSql),
      (''updatePerson'', UpdatePersonSql),
      (''recordSessionActivity'', RecordSessionActivitySql),
      (''getSessionActivity'', GetSessionActivitySql)]"

definition PrepareNamed :: "stmt \<Rightarrow> world \<Rightarrow> (string + stmt) \<times> world" where
  "PrepareNamed sqlCommand w =
     (if \<not> connected w then (Inl ''sql: database is closed'', w)
      else case next_fault w of
             Some e \<Rightarrow> (Inl e, consume w)
           | None \<Rightarrow> (Inr sqlCommand, consume w))"

text \<open>\<open>buildPreparedStatements\<close>: the loop over the registry, \<open>log.Fatal\<close> on an error.\<close>

fun buildPreparedStatements_loop ::
  "(string \<times> stmt) list \<Rightarrow> EdDb \<Rightarrow> world \<Rightarrow> (string option \<times> EdDb) outcome" where
  "buildPreparedStatements_loop [] db w = Returned (None, db) w"
| "buildPreparedStatements_loop ((title, sqlCommand) # rest) db w =
     (case PrepareNamed sqlCommand w of
        (Inl err, w1) \<Rightarrow> Fatal (''buildPreparedStatement:'' @ title @ '' '' @ err) w1
      | (Inr st, w1) \<Rightarrow>
          buildPreparedStatements_loop rest
            (db\<lparr>statements := (statements db)(title \<mapsto> st)\<rparr>) w1)"

definition buildPreparedStatements ::
  "EdDb \<Rightarrow> world \<Rightarrow> (string option \<times> EdDb) outcome" where
  "buildPreparedStatements db w = buildPreparedStatements_loop preparedStatements db w"

definition New :: "string \<Rightarrow> world \<Rightarrow> (string + EdDb) outcome" where
  "New dbFilename w =
     (case sql_Register driverName w of
        None \<Rightarrow> Panic (''sql: Register called twice for driver '' @ driverName) w
      | Some w1 \<Rightarrow>
          (case sqlx_Connect driverName (dbURI dbFilename) w1 of
             (Some err, w2) \<Rightarrow> Returned (Inl err) w2
           | (None, w2) \<Rightarrow>
               (let w3 = SetMaxIdleConns 10 w2;
                    w4 = snd (DB_Exec w3);
                    edDb = \<lparr>statements = Map.empty\<rparr>
                in case initDbSchema w4 of
                     (Some err, w5) \<Rightarrow> Returned (Inl err) (DB_Close w5)
                   | (None, w5) \<Rightarrow>
                       (case buildPreparedStatements edDb w5 of
                          Returned (Some err, db) w6 \<Rightarrow> Returned (Inl err) (DB_Close w6)
                        | Returned (None, db) w6 \<Rightarrow> Returned (Inr db) w6
                        | Fatal m w6 \<Rightarrow> Fatal m w6
                        | Panic m w6 \<Rightarrow> Panic m w6))))"

text \<open>What \<open>New\<close> hands out: an open pool, the memory table, the four statements.\<close>

definition opened :: "EdDb \<Rightarrow> world \<Rightarrow> bool" where
  "opened db w \<longleftrightarrow>
     connected w \<and> sessionActivity w \<noteq> None \<and> statements db = map_of preparedStatements"

section \<open>The data access functions\<close>

text \<open>Calling a method of the nil statement that a missing title yields.\<close>

definition nil_dereference :: string where
  "nil_dereference = ''runtime error: invalid memory address or nil pointer dereference''"

definition UpsertPerson :: "EdDb \<Rightarrow> int \<Rightarrow> string \<Rightarrow> world \<Rightarrow> string option outcome" where
  "UpsertPerson db id' name w =
     (let args = [''id'' \<mapsto> SqlInt id', ''name'' \<mapsto> SqlText name] in
      case statements db ''updatePerson'' of
        None \<Rightarrow> Panic nil_dereference w
      | Some upd \<Rightarrow>
          (case NamedStmt_Exec upd args w of
             (Inl err, w1) \<Rightarrow> Fatal (''updatePerson: '' @ err) w1
           | (Inr _, w1) \<Rightarrow>
               (case statements db ''insertPerson'' of
                  None \<Rightarrow> Panic nil_dereference w1
                | Some ins \<Rightarrow>
                    (case NamedStmt_Exec ins args w1 of
                       (Inl err, w2) \<Rightarrow> Fatal (''insertPerson: '' @ err) w2
                     | (Inr _, w2) \<Rightarrow> Returned None w2))))"

definition RecordSessionActivity :: "EdDb \<Rightarrow> int \<Rightarrow> world \<Rightarrow> string option outcome" where
  "RecordSessionActivity db personID w =
     (case statements db ''recordSessionActivity'' of
        None \<Rightarrow> Panic nil_dereference w
      | Some st \<Rightarrow>
          (case NamedStmt_Exec st [''personId'' \<mapsto> SqlInt personID] w of
             (Inl err, w1) \<Rightarrow> Fatal (''RecordSessionActivity: '' @ err) w1
           | (Inr _, w1) \<Rightarrow> Returned None w1))"

text \<open>
  A line of \<open>PrintSessionActivity\<close>: the four variables it prints. \<open>None\<close> is the zero
  \<open>time.Time\<close>.
\<close>

record printed =
  o_personID :: int
  o_personName :: string
  o_dateTime :: "nat option"
  o_numItems :: int

text \<open>
  \<open>rows.Scan(&personName, &personID, &dateTime, &numItems)\<close> fills the variables from
  left to right and stops at the first column it cannot convert: NULL goes into neither
  a \<open>string\<close> nor an \<open>int64\<close>. The variables start at their zero values.
\<close>

definition Scan :: "report_row \<Rightarrow> string option \<times> printed" where
  "Scan r =
     (case r_personName r of
        None \<Rightarrow>
          (Some ''sql: Scan error on column index 0: converting NULL to string is unsupported'',
           \<lparr>o_personID = 0, o_personName = [], o_dateTime = None, o_numItems = 0\<rparr>)
      | Some n \<Rightarrow>
          (case r_personId r of
             None \<Rightarrow>
               (Some ''sql: Scan error on column index 1: converting NULL to int64 is unsupported'',
                \<lparr>o_personID = 0, o_personName = n, o_dateTime = None, o_numItems = 0\<rparr>)
           | Some i \<Rightarrow>
               (None,
                \<lparr>o_personID = i, o_personName = n, o_dateTime = Some (r_dateTime r),
                 o_numItems = r_numItems r\<rparr>)))"

text \<open>The loop \<open>for rows.Next()\<close>: \<open>err\<close> is overwritten by every \<open>Scan\<close>.\<close>

fun print_rows ::
  "report_row list \<Rightarrow> string option \<Rightarrow> printed list \<Rightarrow> string option \<times> printed list" where
  "print_rows [] err out = (err, out)"
| "print_rows (r # rs) err out =
     (case Scan r of (err', line) \<Rightarrow> print_rows rs err' (out @ [line]))"

text \<open>
  \<open>PrintSessionActivity\<close> returns \<open>err\<close>; the lines it printed are returned with it.
  \<open>bare\<close> is the engine's choice of bare-column rows.
\<close>

definition PrintSessionActivity ::
  "(joined list \<Rightarrow> nat) \<Rightarrow> EdDb \<Rightarrow> world \<Rightarrow> (string option \<times> printed list) outcome" where
  "PrintSessionActivity bare db w =
     (case statements db ''getSessionActivity'' of
        None \<Rightarrow> Panic nil_dereference w
      | Some q \<Rightarrow>
          (case NamedStmt_Query bare q [''id'' \<mapsto> SqlInt 1, ''name'' \<mapsto> SqlText ''f''] w of
             (Inl err, w1) \<Rightarrow> Fatal (''PrintSessionActivity : '' @ err) w1
           | (Inr rows, w1) \<Rightarrow> Returned (print_rows rows None []) w1))"

text \<open>\<open>Close\<close>: closes every statement of the registry, then the pool.\<close>

definition Close :: "EdDb \<Rightarrow> world \<Rightarrow> unit outcome" where
  "Close db w =
     (if \<exists>title \<in> set (map fst preparedStatements). statements db title = None
      then Panic nil_dereference w
      else Returned () (DB_Close w))"

section \<open>Reading the person table\<close>


definition person_pk :: "world \<Rightarrow> bool" where
  "person_pk w \<longleftrightarrow> distinct (map p_id (person w))"

section \<open>An example state\<close>

text \<open>A handle as \<open>New\<close> builds it, and the state of a process that has just opened
  an empty database.\<close>

definition demoDb :: EdDb where
  "demoDb = \<lparr>statements = map_of preparedStatements\<rparr>"

definition demoWorld :: world where
  "demoWorld =
     \<lparr>drivers = [''sqlite3ConnectionCatchingDriver'', ''sqlite3''], connected = True,
      maxIdleConns = 10, attached = True, person = [], sessionActivity = Some [],
      clock = 100, faults = []\<rparr>"

text \<open>The same with one person stored.\<close>

definition andyWorld :: world where
  "andyWorld = demoWorld\<lparr>person := [\<lparr>p_id = 1, p_name = ''Andy'', p_numUpdates = 0\<rparr>]\<rparr>"

text \<open>The backend fails the next invocation; it fails the one after the next.\<close>

definition faultyWorld :: world where
  "faultyWorld = demoWorld\<lparr>faults := [Some ''disk I/O error'']\<rparr>"

definition insertFaultWorld :: world where
  "insertFaultWorld = demoWorld\<lparr>faults := [None, Some ''disk I/O error'']\<rparr>"

text \<open>A process that has not called \<open>New\<close> yet: go-sqlite3 has registered its own
  driver name, nothing is connected.\<close>

definition freshWorld :: world where
  "freshWorld =
     \<lparr>drivers = [''sqlite3''], connected = False, maxIdleConns = 2, attached = False,
      person = [], sessionActivity = None, clock = 100, faults = []\<rparr>"

text \<open>Person 1 after two upserts, with three events of person 1; and with one event
  of person 1 and two events of ids that are not stored.\<close>

definition activeWorld :: world where
  "activeWorld = demoWorld
     \<lparr>person := [\<lparr>p_id = 1, p_name = ''Andy2'', p_numUpdates = 1\<rparr>],
      sessionActivity := Some [\<lparr>a_id = 1, a_personId = 1, a_dateTime = 105\<rparr>,
                               \<lparr>a_id = 2, a_personId = 1, a_dateTime = 110\<rparr>,
                               \<lparr>a_id = 3, a_personId = 1, a_dateTime = 115\<rparr>],
      clock := 115\<rparr>"


section \<open>Basic facts\<close>

lemma consume_fields [simp]:
  "drivers (consume w) = drivers w" "connected (consume w) = connected w"
  "maxIdleConns (consume w) = maxIdleConns w" "attached (consume w) = attached w"
  "person (consume w) = person w" "sessionActivity (consume w) = sessionActivity w"
  "clock (consume w) = clock w" "faults (consume w) = tl (faults w)"
  by (simp_all add: consume_def)

lemma healthy_Suc:
  "healthy (Suc n) w \<Longrightarrow> next_fault w = None \<and> healthy n (consume w)"
  by (cases "faults w") (auto simp: healthy_def next_fault_def)

lemma healthy_person_upd [simp]: "healthy n (w\<lparr>person := ps\<rparr>) = healthy n w"
  by (simp add: healthy_def)

lemma next_fault_person_upd [simp]: "next_fault (w\<lparr>person := ps\<rparr>) = next_fault w"
  by (simp add: next_fault_def)

lemma opened_statements:
  assumes "opened db w"
  shows "statements db ''insertPerson'' = Some InsertPersonSql"
    and "statements db ''updatePerson'' = Some UpdatePersonSql"
    and "statements db ''recordSessionActivity'' = Some RecordSessionActivitySql"
    and "statements db ''getSessionActivity'' = Some GetSessionActivitySql"
  using assms by (simp_all add: opened_def preparedStatements_def)

lemma map_update_ids:
  "map p_id (map (\<lambda>r. if p_id r = i then r\<lparr>p_name := n, p_numUpdates := p_numUpdates r + 1\<rparr> else r) ps)
   = map p_id ps"
  by (induction ps) simp_all

lemma map_update_absent:
  "i \<notin> p_id ` set ps \<Longrightarrow>
   map (\<lambda>r. if p_id r = i then r\<lparr>p_name := n, p_numUpdates := p_numUpdates r + 1\<rparr> else r) ps = ps"
  by (induction ps) auto

lemma Exec_update:
  assumes "connected w" "next_fault w = None"
  shows "NamedStmt_Exec UpdatePersonSql [''id'' \<mapsto> SqlInt i, ''name'' \<mapsto> SqlText n] w =
     (Inr (length (filter (\<lambda>r. p_id r = i) (person w))),
      (consume w)\<lparr>person := map (\<lambda>r. if p_id r = i
                                  then r\<lparr>p_name := n, p_numUpdates := p_numUpdates r + 1\<rparr>
                                  else r) (person w)\<rparr>)"
  using assms by (simp add: NamedStmt_Exec_def run_stmt_def updatePerson_sql_def)

lemma Exec_insert:
  assumes "connected w" "next_fault w = None"
  shows "NamedStmt_Exec InsertPersonSql [''id'' \<mapsto> SqlInt i, ''name'' \<mapsto> SqlText n] w =
     (if i \<in> set (map p_id (person w)) then (Inr 0, consume w)
      else (Inr 1, (consume w)\<lparr>person := person w @ [\<lparr>p_id = i, p_name = n, p_numUpdates = 0\<rparr>]\<rparr>))"
  using assms by (simp add: NamedStmt_Exec_def run_stmt_def insertPerson_sql_def)

lemma Exec_fault:
  assumes "connected w" "next_fault w = Some e"
  shows "NamedStmt_Exec st a w = (Inl e, consume w)"
  using assms by (simp add: NamedStmt_Exec_def)

text \<open>An upsert that the backend lets run.\<close>

lemma UpsertPerson_healthy:
  assumes "opened db w" "healthy 2 w"
  shows "UpsertPerson db i n w =
     Returned None
       (if i \<in> set (map p_id (person w))
        then (consume (consume w))\<lparr>person := map (\<lambda>r. if p_id r = i
                                  then r\<lparr>p_name := n, p_numUpdates := p_numUpdates r + 1\<rparr>
                                  else r) (person w)\<rparr>
        else (consume (consume w))\<lparr>person := person w @ [\<lparr>p_id = i, p_name = n, p_numUpdates = 0\<rparr>]\<rparr>)"
proof -
  have c: "connected w" using assms(1) by (simp add: opened_def)
  have h2: "healthy (Suc (Suc 0)) w" using assms(2) by (simp add: numeral_2_eq_2)
  have f1: "next_fault w = None" and h1: "healthy (Suc 0) (consume w)"
    using healthy_Suc[OF h2] by simp_all
  have f2: "next_fault (consume w) = None" using healthy_Suc[OF h1] by simp
  let ?w1 = "(consume w)\<lparr>person := map (\<lambda>r. if p_id r = i
                                  then r\<lparr>p_name := n, p_numUpdates := p_numUpdates r + 1\<rparr>
                                  else r) (person w)\<rparr>"
  have c1: "connected ?w1" using c by simp
  have f1': "next_fault ?w1 = None" using f2 by simp
  have ids: "map p_id (person ?w1) = map p_id (person w)"
    by (simp add: map_update_ids)
  have upd: "i \<notin> set (map p_id (person w)) \<Longrightarrow> person ?w1 = person w"
    by (simp add: map_update_absent)
  have cc: "consume ?w1 = (consume (consume w))\<lparr>person := person ?w1\<rparr>"
    by (simp add: consume_def)
  show ?thesis
    unfolding UpsertPerson_def Let_def
    apply (simp only: opened_statements[OF assms(1)] option.case Exec_update[OF c f1] prod.case sum.case
         Exec_insert[OF c1 f1'] ids)
    by (auto simp: consume_def map_update_absent)
qed

lemma healthy_mono: "healthy (Suc n) w \<Longrightarrow> healthy n w"
proof -
  have "set (take n (faults w)) \<subseteq> set (take (Suc n) (faults w))"
    by (rule set_take_subset_set_take) simp
  then show "healthy (Suc n) w \<Longrightarrow> healthy n w"
    unfolding healthy_def by blast
qed

lemma opened_consume [simp]: "opened db (consume w) = opened db w"
  by (simp add: opened_def)

lemma opened_person_upd [simp]: "opened db (w\<lparr>person := ps\<rparr>) = opened db w"
  by (simp add: opened_def)

lemma healthy_consume: "healthy (Suc n) w \<Longrightarrow> healthy n (consume w)"
  by (simp add: healthy_Suc)

lemma healthy_4:
  assumes "healthy 4 w"
  shows "healthy 2 w" and "healthy 2 (consume (consume w))"
proof -
  have e4: "(4::nat) = Suc (Suc (Suc (Suc 0)))" by simp
  have e2: "(2::nat) = Suc (Suc 0)" by simp
  have h4: "healthy (Suc (Suc (Suc (Suc 0)))) w" using assms unfolding e4 .
  show "healthy 2 w" unfolding e2 by (rule healthy_mono[OF healthy_mono[OF h4]])
  show "healthy 2 (consume (consume w))"
    unfolding e2 by (rule healthy_consume[OF healthy_consume[OF h4]])
qed

lemma UpsertPerson_fresh:
  assumes "opened db w" "healthy 2 w" "i \<notin> p_id ` set (person w)"
  shows "UpsertPerson db i n w = Returned None
     ((consume (consume w))\<lparr>person := person w @ [\<lparr>p_id = i, p_name = n, p_numUpdates = 0\<rparr>]\<rparr>)"
  using UpsertPerson_healthy[OF assms(1,2)] assms(3) by simp

lemma UpsertPerson_stored:
  assumes "opened db w" "healthy 2 w" "i \<in> p_id ` set (person w)"
  shows "UpsertPerson db i n w = Returned None
     ((consume (consume w))\<lparr>person := map (\<lambda>r. if p_id r = i
                                  then r\<lparr>p_name := n, p_numUpdates := p_numUpdates r + 1\<rparr>
                                  else r) (person w)\<rparr>)"
  using UpsertPerson_healthy[OF assms(1,2)] assms(3) by simp

text \<open>A call whose statement the backend fails.\<close>

lemma UpsertPerson_update_fault:
  assumes "opened db w" "next_fault w = Some e"
  shows "UpsertPerson db i n w = Fatal (''updatePerson: '' @ e) (consume w)"
proof -
  have c: "connected w" using assms(1) by (simp add: opened_def)
  show ?thesis
    unfolding UpsertPerson_def Let_def
    by (simp only: opened_statements[OF assms(1)] option.case Exec_fault[OF c assms(2)]
        prod.case sum.case)
qed

lemma UpsertPerson_insert_fault:
  assumes "opened db w" "next_fault w = None" "next_fault (consume w) = Some e"
  shows "UpsertPerson db i n w =
              Fatal (''insertPerson: '' @ e)
                ((consume (consume w))\<lparr>person := map (\<lambda>r. if p_id r = i
                                  then r\<lparr>p_name := n, p_numUpdates := p_numUpdates r + 1\<rparr>
                                  else r) (person w)\<rparr>)"
proof -
  have c: "connected w" using assms(1) by (simp add: opened_def)
  let ?w1 = "(consume w)\<lparr>person := map (\<lambda>r. if p_id r = i
                                  then r\<lparr>p_name := n, p_numUpdates := p_numUpdates r + 1\<rparr>
                                  else r) (person w)\<rparr>"
  have c1: "connected ?w1" using c by simp
  have f2': "next_fault ?w1 = Some e" using assms(3) by simp
  have cc: "consume ?w1 = (consume (consume w))\<lparr>person := person ?w1\<rparr>"
    by (simp add: consume_def)
  show ?thesis
    unfolding UpsertPerson_def Let_def
    by (simp only: opened_statements[OF assms(1)] option.case Exec_update[OF c assms(2)]
          Exec_fault[OF c1 f2'] prod.case sum.case) (simp add: cc)
qed

lemma RecordSessionActivity_fault:
  assumes "opened db w" "next_fault w = Some e"
  shows "RecordSessionActivity db j w = Fatal (''RecordSessionActivity: '' @ e) (consume w)"
proof -
  have c: "connected w" using assms(1) by (simp add: opened_def)
  show ?thesis
    unfolding RecordSessionActivity_def
    by (simp only: opened_statements[OF assms(1)] option.case Exec_fault[OF c assms(2)]
        prod.case sum.case)
qed

lemma opened_demo: "opened demoDb demoWorld"
  by (simp add: opened_def demoDb_def demoWorld_def)

lemma healthy_no_faults: "faults w = [] \<Longrightarrow> healthy n w"
  by (simp add: healthy_def)


lemma Exec_record:
  assumes "connected w" "next_fault w = None" "sessionActivity w = Some evs"
  shows "NamedStmt_Exec RecordSessionActivitySql [''personId'' \<mapsto> SqlInt i] w =
     (Inr 1, (consume w)\<lparr>sessionActivity := Some (evs @
                  [\<lparr>a_id = next_rowid evs, a_personId = i, a_dateTime = clock w\<rparr>])\<rparr>)"
  using assms by (simp add: NamedStmt_Exec_def run_stmt_def recordSessionActivity_sql_def)

lemma opened_andy: "opened demoDb andyWorld"
  by (simp add: opened_def demoDb_def demoWorld_def andyWorld_def)

section \<open>Upserting a person\<close>

text \<open>
  C2. For an id that is not stored, two upserts in a row with two names leave exactly
  one row for that id, with the second name and \<open>numUpdates = 1\<close>: the first call
  inserts the row with count 0, the second updates it. (The backend lets the four
  statement invocations run.)
\<close>

theorem upsert_twice_new_id:
  assumes "opened db w" and "healthy 4 w" and "i \<notin> p_id ` set (person w)"
  shows "\<exists>w1 w2. UpsertPerson db i n1 w = Returned None w1 \<and>
                 UpsertPerson db i n2 w1 = Returned None w2 \<and>
                 filter (\<lambda>r. p_id r = i) (person w2) =
                   [\<lparr>p_id = i, p_name = n2, p_numUpdates = 1\<rparr>]"
proof -
  let ?w1 = "(consume (consume w))\<lparr>person := person w @ [\<lparr>p_id = i, p_name = n1, p_numUpdates = 0\<rparr>]\<rparr>"
  let ?w2 = "(consume (consume ?w1))\<lparr>person := map (\<lambda>r. if p_id r = i
                                  then r\<lparr>p_name := n2, p_numUpdates := p_numUpdates r + 1\<rparr>
                                  else r) (person ?w1)\<rparr>"
  have u1: "UpsertPerson db i n1 w = Returned None ?w1"
    using UpsertPerson_fresh[OF assms(1) healthy_4(1)[OF assms(2)] assms(3)] .
  have o1: "opened db ?w1" using assms(1) by simp
  have h1: "healthy 2 ?w1" using healthy_4(2)[OF assms(2)] by simp
  have m1: "i \<in> p_id ` set (person ?w1)" by simp
  have u2: "UpsertPerson db i n2 ?w1 = Returned None ?w2"
    using UpsertPerson_stored[OF o1 h1 m1] .
  have "filter (\<lambda>r. p_id r = i) (person w) = []"
    using assms(3) by (auto simp: filter_empty_conv)
  then have f: "filter (\<lambda>r. p_id r = i) (person ?w2) =
                   [\<lparr>p_id = i, p_name = n2, p_numUpdates = 1\<rparr>]"
    using assms(3) by (simp add: map_update_absent)
  show ?thesis using u1 u2 f by blast
qed

theorem upsert_twice_new_id_witness:
  "opened demoDb demoWorld \<and> healthy 4 demoWorld \<and> 1 \<notin> p_id ` set (person demoWorld) \<and>
   (\<exists>w1 w2. UpsertPerson demoDb 1 ''Andy'' demoWorld = Returned None w1 \<and>
            UpsertPerson demoDb 1 ''Andy2'' w1 = Returned None w2 \<and>
            filter (\<lambda>r. p_id r = 1) (person w2) =
              [\<lparr>p_id = 1, p_name = ''Andy2'', p_numUpdates = 1\<rparr>])"
proof -
  have h: "healthy 4 demoWorld" by (rule healthy_no_faults) (simp add: demoWorld_def)
  have n: "1 \<notin> p_id ` set (person demoWorld)" by (simp add: demoWorld_def)
  show ?thesis
    using upsert_twice_new_id[OF opened_demo h n, of "''Andy''" "''Andy2''"] opened_demo h n
    by blast
qed




text \<open>
  C4. \<open>UpsertPerson\<close> returns no error whenever the backend lets its two invocations
  run. For an id that is not stored the update changes zero rows and the insert
  creates the row with the given name and \<open>numUpdates = 0\<close>; for a stored id it is
  the insert that changes zero rows. Zero rows changed is never a failure.
\<close>

theorem upsert_absent_id_succeeds:
  assumes "opened db w" and "healthy 2 w"
  shows "(\<exists>w'. UpsertPerson db i n w = Returned None w') \<and>
         (i \<notin> p_id ` set (person w) \<longrightarrow>
            fst (NamedStmt_Exec UpdatePersonSql [''id'' \<mapsto> SqlInt i, ''name'' \<mapsto> SqlText n] w) = Inr 0 \<and>
            person (world_of (UpsertPerson db i n w)) =
              person w @ [\<lparr>p_id = i, p_name = n, p_numUpdates = 0\<rparr>]) \<and>
         (i \<in> p_id ` set (person w) \<longrightarrow>
            fst (NamedStmt_Exec InsertPersonSql [''id'' \<mapsto> SqlInt i, ''name'' \<mapsto> SqlText n]
                   (snd (NamedStmt_Exec UpdatePersonSql
                           [''id'' \<mapsto> SqlInt i, ''name'' \<mapsto> SqlText n] w))) = Inr 0)"
proof -
  have c: "connected w" using assms(1) by (simp add: opened_def)
  have h2: "healthy (Suc (Suc 0)) w" using assms(2) by (simp add: numeral_2_eq_2)
  have f1: "next_fault w = None" and h1: "healthy (Suc 0) (consume w)"
    using healthy_Suc[OF h2] by simp_all
  have f2: "next_fault (consume w) = None" using healthy_Suc[OF h1] by simp
  have ret: "\<exists>w'. UpsertPerson db i n w = Returned None w'"
    using UpsertPerson_healthy[OF assms] by blast
  have absent: "fst (NamedStmt_Exec UpdatePersonSql [''id'' \<mapsto> SqlInt i, ''name'' \<mapsto> SqlText n] w) = Inr 0"
    if "i \<notin> p_id ` set (person w)"
    using that by (auto simp: Exec_update[OF c f1] filter_empty_conv)
  have created: "person (world_of (UpsertPerson db i n w)) =
              person w @ [\<lparr>p_id = i, p_name = n, p_numUpdates = 0\<rparr>]"
    if "i \<notin> p_id ` set (person w)"
    using that by (simp add: UpsertPerson_fresh[OF assms])
  have ignored: "fst (NamedStmt_Exec InsertPersonSql [''id'' \<mapsto> SqlInt i, ''name'' \<mapsto> SqlText n]
                   (snd (NamedStmt_Exec UpdatePersonSql
                           [''id'' \<mapsto> SqlInt i, ''name'' \<mapsto> SqlText n] w))) = Inr 0"
    if "i \<in> p_id ` set (person w)"
  proof -
    let ?w1 = "(consume w)\<lparr>person := map (\<lambda>r. if p_id r = i
                                  then r\<lparr>p_name := n, p_numUpdates := p_numUpdates r + 1\<rparr>
                                  else r) (person w)\<rparr>"
    have c1: "connected ?w1" using c by simp
    have f1': "next_fault ?w1 = None" using f2 by simp
    have pw1: "person ?w1 = map (\<lambda>r. if p_id r = i
                                  then r\<lparr>p_name := n, p_numUpdates := p_numUpdates r + 1\<rparr>
                                  else r) (person w)" by simp
    have "i \<in> set (map p_id (person ?w1))"
      unfolding pw1 map_update_ids using that by simp
    then show ?thesis
      by (simp only: Exec_update[OF c f1] snd_conv Exec_insert[OF c1 f1'] if_True fst_conv)
  qed
  show ?thesis using ret absent created ignored by blast
qed

theorem upsert_absent_id_succeeds_witness:
  "opened demoDb demoWorld \<and> healthy 2 demoWorld \<and> 1 \<notin> p_id ` set (person demoWorld) \<and>
   (\<exists>w'. UpsertPerson demoDb 1 ''Andy'' demoWorld = Returned None w') \<and>
   fst (NamedStmt_Exec UpdatePersonSql [''id'' \<mapsto> SqlInt 1, ''name'' \<mapsto> SqlText ''Andy'']
          demoWorld) = Inr 0 \<and>
   person (world_of (UpsertPerson demoDb 1 ''Andy'' demoWorld)) =
     [\<lparr>p_id = 1, p_name = ''Andy'', p_numUpdates = 0\<rparr>] \<and>
   opened demoDb andyWorld \<and> healthy 2 andyWorld \<and> 1 \<in> p_id ` set (person andyWorld) \<and>
   (\<exists>w'. UpsertPerson demoDb 1 ''Andy2'' andyWorld = Returned None w') \<and>
   fst (NamedStmt_Exec InsertPersonSql [''id'' \<mapsto> SqlInt 1, ''name'' \<mapsto> SqlText ''Andy2'']
          (snd (NamedStmt_Exec UpdatePersonSql
                  [''id'' \<mapsto> SqlInt 1, ''name'' \<mapsto> SqlText ''Andy2''] andyWorld))) = Inr 0"
proof -
  have h: "healthy 2 demoWorld" by (rule healthy_no_faults) (simp add: demoWorld_def)
  have h': "healthy 2 andyWorld"
    by (rule healthy_no_faults) (simp add: demoWorld_def andyWorld_def)
  have n: "1 \<notin> p_id ` set (person demoWorld)" by (simp add: demoWorld_def)
  have m: "1 \<in> p_id ` set (person andyWorld)" by (simp add: andyWorld_def)
  have p: "person demoWorld = []" by (simp add: demoWorld_def)
  show ?thesis
    using upsert_absent_id_succeeds[OF opened_demo h, of 1 "''Andy''"]
      upsert_absent_id_succeeds[OF opened_andy h', of 1 "''Andy2''"]
      opened_demo opened_andy h h' n m p
    by simp
qed

section \<open>A statement that fails\<close>

text \<open>
  C1, as stated: a failed invocation is returned to the caller as an error. It is
  not: both functions call \<open>log.Fatal\<close>, which ends the process.
\<close>

theorem failed_statement_not_returned:
  "UpsertPerson demoDb 1 ''Andy'' faultyWorld = Fatal ''updatePerson: disk I/O error'' demoWorld \<and>
   RecordSessionActivity demoDb 1 faultyWorld =
     Fatal ''RecordSessionActivity: disk I/O error'' demoWorld \<and>
   \<not> is_Returned (UpsertPerson demoDb 1 ''Andy'' faultyWorld) \<and>
   \<not> is_Returned (RecordSessionActivity demoDb 1 faultyWorld)"
  by (simp add: UpsertPerson_def RecordSessionActivity_def demoDb_def faultyWorld_def
      demoWorld_def preparedStatements_def NamedStmt_Exec_def next_fault_def consume_def)

text \<open>
  C1, amended. When the backend fails a statement invocation, \<open>UpsertPerson\<close> and
  \<open>RecordSessionActivity\<close> do not return the error: they end the process through
  \<open>log.Fatal\<close> with the message "statement: error". The failed invocation changes no
  table; an \<open>UpsertPerson\<close> whose insert fails has already applied its update.
\<close>

theorem failed_statement_is_fatal:
  assumes "opened db w"
  shows "(next_fault w = Some e \<longrightarrow>
            UpsertPerson db i n w = Fatal (''updatePerson: '' @ e) (consume w) \<and>
            RecordSessionActivity db j w = Fatal (''RecordSessionActivity: '' @ e) (consume w)) \<and>
         (next_fault w = None \<and> next_fault (consume w) = Some e \<longrightarrow>
            UpsertPerson db i n w =
              Fatal (''insertPerson: '' @ e)
                ((consume (consume w))\<lparr>person := map (\<lambda>r. if p_id r = i
                                  then r\<lparr>p_name := n, p_numUpdates := p_numUpdates r + 1\<rparr>
                                  else r) (person w)\<rparr>))"
proof -
  have a: "UpsertPerson db i n w = Fatal (''updatePerson: '' @ e) (consume w)"
    if "next_fault w = Some e"
    by (rule UpsertPerson_update_fault[OF assms that])
  have b: "RecordSessionActivity db j w = Fatal (''RecordSessionActivity: '' @ e) (consume w)"
    if "next_fault w = Some e"
    by (rule RecordSessionActivity_fault[OF assms that])
  have d: "UpsertPerson db i n w =
              Fatal (''insertPerson: '' @ e)
                ((consume (consume w))\<lparr>person := map (\<lambda>r. if p_id r = i
                                  then r\<lparr>p_name := n, p_numUpdates := p_numUpdates r + 1\<rparr>
                                  else r) (person w)\<rparr>)"
    if "next_fault w = None" and "next_fault (consume w) = Some e"
    by (rule UpsertPerson_insert_fault[OF assms that])
  show ?thesis using a b d by blast
qed

theorem failed_statement_is_fatal_witness:
  "opened demoDb faultyWorld \<and> next_fault faultyWorld = Some ''disk I/O error'' \<and>
   UpsertPerson demoDb 1 ''Andy'' faultyWorld =
     Fatal ''updatePerson: disk I/O error'' (consume faultyWorld) \<and>
   RecordSessionActivity demoDb 1 faultyWorld =
     Fatal ''RecordSessionActivity: disk I/O error'' (consume faultyWorld) \<and>
   opened demoDb insertFaultWorld \<and> next_fault insertFaultWorld = None \<and>
   next_fault (consume insertFaultWorld) = Some ''disk I/O error'' \<and>
   UpsertPerson demoDb 1 ''Andy'' insertFaultWorld = Fatal ''insertPerson: disk I/O error'' demoWorld"
proof -
  have o: "opened demoDb faultyWorld"
    by (simp add: opened_def demoDb_def demoWorld_def faultyWorld_def)
  have o': "opened demoDb insertFaultWorld"
    by (simp add: opened_def demoDb_def demoWorld_def insertFaultWorld_def)
  have f: "next_fault faultyWorld = Some ''disk I/O error''"
    by (simp add: next_fault_def faultyWorld_def)
  have f1: "next_fault insertFaultWorld = None"
    by (simp add: next_fault_def insertFaultWorld_def)
  have f2: "next_fault (consume insertFaultWorld) = Some ''disk I/O error''"
    by (simp add: next_fault_def consume_def insertFaultWorld_def)
  have e: "(consume (consume insertFaultWorld))\<lparr>person := []\<rparr> = demoWorld"
    by (simp add: consume_def insertFaultWorld_def demoWorld_def)
  have p: "person insertFaultWorld = []" by (simp add: insertFaultWorld_def demoWorld_def)
  show ?thesis
    using failed_statement_is_fatal[OF o, of "''disk I/O error''" 1 "''Andy''" 1]
      failed_statement_is_fatal[OF o', of "''disk I/O error''" 1 "''Andy''" 1]
      o o' f f1 f2 e p
    by simp
qed

section \<open>Recording activity\<close>

text \<open>
  C8. For every \<open>personID\<close>, stored as a person or not, \<open>RecordSessionActivity\<close>
  appends exactly one event, stamped with the backend's current time, and returns no
  error, whenever the backend lets the invocation run. No table is consulted about
  \<open>personID\<close>: the theorem has no condition on \<open>person\<close>.
\<close>

theorem record_activity_inserts_one_event:
  assumes "opened db w" and "healthy 1 w" and "sessionActivity w = Some evs"
  shows "RecordSessionActivity db personID w =
           Returned None
             ((consume w)\<lparr>sessionActivity := Some (evs @
                [\<lparr>a_id = next_rowid evs, a_personId = personID, a_dateTime = clock w\<rparr>])\<rparr>)"
proof -
  have c: "connected w" using assms(1) by (simp add: opened_def)
  have "healthy (Suc 0) w" using assms(2) by simp
  then have f: "next_fault w = None" by (simp add: healthy_Suc)
  show ?thesis
    unfolding RecordSessionActivity_def
    by (simp only: opened_statements[OF assms(1)] option.case Exec_record[OF c f assms(3)]
        prod.case sum.case)
qed

theorem record_activity_inserts_one_event_witness:
  "opened demoDb demoWorld \<and> healthy 1 demoWorld \<and> sessionActivity demoWorld = Some [] \<and>
   person demoWorld = [] \<and>
   RecordSessionActivity demoDb 7 demoWorld =
     Returned None (demoWorld\<lparr>sessionActivity :=
        Some [\<lparr>a_id = 1, a_personId = 7, a_dateTime = 100\<rparr>]\<rparr>)"
proof -
  have h: "healthy 1 demoWorld" by (rule healthy_no_faults) (simp add: demoWorld_def)
  have s: "sessionActivity demoWorld = Some []" by (simp add: demoWorld_def)
  have "consume demoWorld = demoWorld" by (simp add: consume_def demoWorld_def)
  then show ?thesis
    using record_activity_inserts_one_event[OF opened_demo h s, of 7] opened_demo h s
    by (simp add: next_rowid_def) (simp add: demoWorld_def)
qed

section \<open>Opening the database twice, and a failed attach\<close>

text \<open>
  C7. A connection factory that cannot attach the shared memory database should
  return an error. The hook drops the result of \<open>newConn.Exec\<close> and returns \<open>nil\<close>:
  evaluated where the backend fails the ATTACH, the hook returns no error, and the
  driver hands out a connection that has no memory database attached.
\<close>

theorem connect_hook_drops_attach_error:
  "ConnectHook (freshWorld\<lparr>faults := [Some ''unable to open database file'']\<rparr>) =
     (None, freshWorld) \<and>
   \<not> attached freshWorld \<and>
   driver_Open (freshWorld\<lparr>faults := [None, Some ''unable to open database file'']\<rparr>) =
     (None, freshWorld\<lparr>connected := True\<rparr>)"
  by (simp add: ConnectHook_def driver_Open_def freshWorld_def next_fault_def consume_def)

text \<open>
  On the first connection of the pool the missing attachment shows later: \<open>New\<close>
  gets as far as \<open>initDbSchema\<close>, whose \<open>CREATE TABLE mem.sessionActivity\<close> finds no
  database \<open>mem\<close>.
\<close>

lemma New_after_failed_attach:
  "New ''diskDb.db'' (freshWorld\<lparr>faults := [None, Some ''unable to open database file'']\<rparr>) =
     Returned (Inl ''unknown database mem'')
       (freshWorld\<lparr>drivers := [''sqlite3ConnectionCatchingDriver'', ''sqlite3''],
                   maxIdleConns := 10\<rparr>)"
  by (simp add: New_def freshWorld_def sql_Register_def driverName_def sqlx_Connect_def
      driver_Open_def ConnectHook_def next_fault_def consume_def SetMaxIdleConns_def
      DB_Exec_def initDbSchema_def DB_Close_def)

lemma drivers_buildPreparedStatements_loop:
  "drivers (world_of (buildPreparedStatements_loop xs db w)) = drivers w"
  by (induction xs db w rule: buildPreparedStatements_loop.induct)
     (auto simp: PrepareNamed_def split: option.splits)

lemma drivers_driver_Open: "drivers (snd (driver_Open w)) = drivers w"
  by (simp add: driver_Open_def ConnectHook_def split: option.splits)

lemma drivers_initDbSchema: "drivers (snd (initDbSchema w)) = drivers w"
  by (simp add: initDbSchema_def split: option.splits)

lemma drivers_driver_Open_eq: "driver_Open w = (e, w') \<Longrightarrow> drivers w' = drivers w"
  using drivers_driver_Open[of w] by simp

lemma drivers_initDbSchema_eq: "initDbSchema w = (e, w') \<Longrightarrow> drivers w' = drivers w"
  using drivers_initDbSchema[of w] by simp

lemma drivers_buildPreparedStatements:
  "drivers (world_of (buildPreparedStatements db w)) = drivers w"
  by (simp add: buildPreparedStatements_def drivers_buildPreparedStatements_loop)

text \<open>What follows the registration in \<open>New\<close> leaves the registry alone.\<close>

lemma New_registers: "driverName \<in> set (drivers (world_of (New dbFilename w)))"
proof (cases "driverName \<in> set (drivers w)")
  case True
  then show ?thesis by (simp add: New_def sql_Register_def)
next
  case False
  let ?w1 = "w\<lparr>drivers := driverName # drivers w\<rparr>"
  have r: "sql_Register driverName w = Some ?w1" using False by (simp add: sql_Register_def)
  obtain e w2 where c: "sqlx_Connect driverName (dbURI dbFilename) ?w1 = (e, w2)"
    by (cases "sqlx_Connect driverName (dbURI dbFilename) ?w1")
  have d2: "drivers w2 = drivers ?w1"
    using c drivers_driver_Open_eq[of ?w1 e w2] by (simp add: sqlx_Connect_def)
  show ?thesis
  proof (cases e)
    case (Some err)
    then show ?thesis using d2 by (simp add: New_def r c)
  next
    case None
    let ?w4 = "snd (DB_Exec (SetMaxIdleConns 10 w2))"
    have d4: "drivers ?w4 = drivers w2" by (simp add: DB_Exec_def SetMaxIdleConns_def)
    obtain e5 w5 where i: "initDbSchema ?w4 = (e5, w5)" by (cases "initDbSchema ?w4")
    have d5: "drivers w5 = drivers ?w4" using drivers_initDbSchema_eq[OF i] .
    show ?thesis
    proof (cases e5)
      case (Some err)
      then show ?thesis using d2 d4 d5 by (simp add: New_def r c None i Let_def DB_Close_def)
    next
      case n5: None
      have d6: "drivers (world_of (buildPreparedStatements \<lparr>statements = Map.empty\<rparr> w5)) = drivers w5"
        by (rule drivers_buildPreparedStatements)
      have "drivers (world_of (New dbFilename w)) = drivers w5"
        using d6 by (auto simp: New_def r c None i n5 Let_def DB_Close_def
              split: outcome.splits prod.splits option.splits)
      then show ?thesis using d2 d4 d5 by simp
    qed
  qed
qed

text \<open>
  C10. \<open>New\<close> begins by registering the driver name, and nothing that follows
  unregisters it. So however a first call ended, a second call in the same process
  panics in \<open>sql.Register\<close>, whatever its argument, and cannot return a handle.
\<close>

theorem second_New_panics:
  "New f2 (world_of (New f1 w)) =
     Panic (''sql: Register called twice for driver '' @ driverName) (world_of (New f1 w)) \<and>
   \<not> is_Returned (New f2 (world_of (New f1 w)))"
proof -
  have "New f2 w' = Panic (''sql: Register called twice for driver '' @ driverName) w'"
    if "driverName \<in> set (drivers w')" for w'
    using that by (simp add: New_def sql_Register_def)
  from this[OF New_registers[of f1 w]] show ?thesis by simp
qed

theorem second_New_panics_witness:
  "is_Returned (New ''diskDb.db'' freshWorld) \<and>
   New ''other.db'' (world_of (New ''diskDb.db'' freshWorld)) =
     Panic ''sql: Register called twice for driver sqlite3ConnectionCatchingDriver''
       (world_of (New ''diskDb.db'' freshWorld))"
proof -
  have "is_Returned (New ''diskDb.db'' freshWorld)"
    by (simp add: New_def freshWorld_def sql_Register_def driverName_def sqlx_Connect_def
        driver_Open_def ConnectHook_def next_fault_def consume_def SetMaxIdleConns_def
        DB_Exec_def initDbSchema_def buildPreparedStatements_def preparedStatements_def
        PrepareNamed_def)
  then show ?thesis
    using second_New_panics[of "''other.db''" "''diskDb.db''" freshWorld] by (simp add: driverName_def)
qed

section \<open>The person table under the three operations\<close>

















section \<open>The report\<close>

lemma id_in_image: "m \<in> set ps \<Longrightarrow> p_id m = v \<Longrightarrow> v \<in> p_id ` set ps"
  by blast

lemma set_matches:
  "set (matches e ps) =
     (if a_personId e \<in> p_id ` set ps
      then {(e, Some p) | p. p \<in> set ps \<and> p_id p = a_personId e}
      else {(e, None)})"
proof (cases "filter (\<lambda>p. p_id p = a_personId e) ps")
  case Nil
  then have "a_personId e \<notin> p_id ` set ps" by (auto simp: filter_empty_conv)
  then show ?thesis using Nil by (simp add: matches_def)
next
  case (Cons m ms)
  then have "m \<in> set (filter (\<lambda>p. p_id p = a_personId e) ps)" by simp
  then have mem: "a_personId e \<in> p_id ` set ps" by (auto intro: id_in_image)
  have "set (matches e ps) = (\<lambda>p. (e, Some p)) ` set (filter (\<lambda>p. p_id p = a_personId e) ps)"
    using Cons by (simp add: matches_def)
  then show ?thesis using mem by auto
qed

lemma join_member:
  "(e, p) \<in> set (left_outer_join evs ps) \<longleftrightarrow>
     e \<in> set evs \<and>
     (case p of None \<Rightarrow> a_personId e \<notin> p_id ` set ps
              | Some q \<Rightarrow> q \<in> set ps \<and> p_id q = a_personId e)"
  by (cases p) (auto simp: left_outer_join_def set_matches intro: id_in_image split: if_splits)

lemma group_by_member:
  "g \<in> set (group_by js) \<longleftrightarrow>
     (\<exists>k \<in> group_key ` set js. g = filter (\<lambda>j. group_key j = k) js)"
  by (auto simp: group_by_def)

lemma group_nonempty:
  assumes "k \<in> group_key ` set js"
  shows "filter (\<lambda>j. group_key j = k) js \<noteq> []"
  using assms by (auto simp: filter_empty_conv)

lemma bare_row_member: "g \<noteq> [] \<Longrightarrow> bare_row bare g \<in> set g"
  by (simp add: bare_row_def)

lemma bare_row_key:
  assumes "k \<in> group_key ` set js"
  shows "group_key (bare_row bare (filter (\<lambda>j. group_key j = k) js)) = k"
  using bare_row_member[OF group_nonempty[OF assms], of bare] by simp

lemma select_row_fields:
  "r_personId (select_row bare g) = group_key (bare_row bare g)"
  "r_personName (select_row bare g) = map_option p_name (snd (bare_row bare g))"
  "r_dateTime (select_row bare g) = a_dateTime (fst (bare_row bare g))"
  "r_numItems (select_row bare g) = int (length g)"
  by (simp_all add: select_row_def group_key_def split: prod.splits)





lemma filter_absent: "v \<notin> p_id ` set ps \<Longrightarrow> filter (\<lambda>p. p_id p = v) ps = []"
  by (induction ps) auto

lemma filter_pk_single:
  "distinct (map p_id ps) \<Longrightarrow> v \<in> p_id ` set ps \<Longrightarrow>
   \<exists>q. filter (\<lambda>p. p_id p = v) ps = [q] \<and> p_id q = v"
proof (induction ps)
  case Nil
  then show ?case by simp
next
  case (Cons p ps)
  show ?case
  proof (cases "p_id p = v")
    case True
    then have "v \<notin> p_id ` set ps" using Cons.prems(1) by auto
    then have "filter (\<lambda>p. p_id p = v) ps = []" by (auto simp: filter_empty_conv)
    then show ?thesis using True by simp
  next
    case False
    then have "v \<in> p_id ` set ps" using Cons.prems(2) by auto
    then show ?thesis using Cons.IH Cons.prems(1) False by simp
  qed
qed

lemma matches_stored:
  assumes "distinct (map p_id ps)" "a_personId e \<in> p_id ` set ps"
  shows "\<exists>q. matches e ps = [(e, Some q)] \<and> p_id q = a_personId e"
proof -
  obtain q where "filter (\<lambda>p. p_id p = a_personId e) ps = [q]" "p_id q = a_personId e"
    using filter_pk_single[OF assms] by blast
  then show ?thesis by (simp add: matches_def)
qed

lemma matches_orphan:
  assumes "a_personId e \<notin> p_id ` set ps"
  shows "matches e ps = [(e, None)]"
proof -
  have "filter (\<lambda>p. p_id p = a_personId e) ps = []"
    using assms by (rule filter_absent)
  then show ?thesis by (simp add: matches_def)
qed

lemma group_of_matches:
  assumes "distinct (map p_id ps)" "i \<in> p_id ` set ps"
  shows "map fst (filter (\<lambda>j. group_key j = Some i) (matches e ps)) =
           (if a_personId e = i then [e] else [])"
proof (cases "a_personId e \<in> p_id ` set ps")
  case True
  obtain q where "matches e ps = [(e, Some q)]" "p_id q = a_personId e"
    using matches_stored[OF assms(1) True] by blast
  then show ?thesis by (simp add: group_key_def)
next
  case False
  then have "a_personId e \<noteq> i" using assms(2) by auto
  then show ?thesis by (simp add: matches_orphan[OF False] group_key_def)
qed

text \<open>With a primary key on \<open>person\<close>, the group of a stored id holds each of its
  events once, in the order of the events.\<close>

lemma group_events:
  assumes "distinct (map p_id ps)" "i \<in> p_id ` set ps"
  shows "map fst (filter (\<lambda>j. group_key j = Some i) (left_outer_join evs ps)) =
           filter (\<lambda>e. a_personId e = i) evs"
proof (induction evs)
  case Nil
  then show ?case by (simp add: left_outer_join_def)
next
  case (Cons e evs)
  have "left_outer_join (e # evs) ps = matches e ps @ left_outer_join evs ps"
    by (simp add: left_outer_join_def)
  then show ?case using Cons.IH by (simp add: group_of_matches[OF assms])
qed

lemma group_key_stored:
  assumes "Some i \<in> group_key ` set (left_outer_join evs ps)"
  shows "i \<in> p_id ` set ps"
proof -
  obtain e p where m: "(e, p) \<in> set (left_outer_join evs ps)" and k: "group_key (e, p) = Some i"
    using assms by (metis imageE surj_pair)
  from k obtain q where q: "p = Some q" "p_id q = i" by (cases p) (auto simp: group_key_def)
  then have "q \<in> set ps" using m by (simp add: join_member)
  then show ?thesis using q(2) by (rule id_in_image)
qed

lemma bare_row_last:
  assumes "g \<noteq> []"
  shows "bare_row last_of_group g = last g"
  using assms by (simp add: bare_row_def last_of_group_def last_conv_nth)

lemma last_is_Max:
  assumes "sorted (map f xs)" "xs \<noteq> []"
  shows "f (last xs) = Max (f ` set xs)"
proof -
  have "\<forall>x \<in> set xs. f x \<le> f (last xs)"
    using assms
  proof (induction xs)
    case Nil
    then show ?case by simp
  next
    case (Cons x xs)
    then show ?case by (cases "xs = []") auto
  qed
  moreover have "f (last xs) \<in> f ` set xs" using assms(2) by simp
  ultimately show ?thesis by (intro Max_eqI[symmetric]) auto
qed

lemma rows_set:
  assumes "sessionActivity w = Some evs" "getSessionActivity_sql bare w = Inr rows"
  shows "set rows = select_row bare ` set (group_by (left_outer_join evs (person w)))"
  using assms by (auto simp: getSessionActivity_sql_def)

lemmas query_eval =
  getSessionActivity_sql_def left_outer_join_def matches_def group_by_def group_key_def
  select_row_def bare_row_def first_of_group_def last_of_group_def

lemma getSessionActivity_sql_consume [simp]:
  "getSessionActivity_sql bare (consume w) = getSessionActivity_sql bare w"
  by (simp add: getSessionActivity_sql_def split: option.splits)






text \<open>
  What \<open>PrintSessionActivity\<close> does with a row whose person columns are NULL: \<open>Scan\<close>
  fails on the first column, so the line shows the empty name (and zero values),
  and the error becomes the value of \<open>err\<close>.
\<close>

lemma Scan_null_name:
  "r_personName r = None \<Longrightarrow> fst (Scan r) \<noteq> None \<and> o_personName (snd (Scan r)) = []"
  by (simp add: Scan_def)



text \<open>
  C6, as stated: the row of an entity shows the latest timestamp of its events.
  The query selects the bare column \<open>dateTime\<close>, not \<open>max(dateTime)\<close>, so the
  timestamp is that of the row the engine picks from the group. Where it picks the
  first row, three events of person 1 at times 105, 110 and 115 are reported with
  the timestamp 105.
\<close>

theorem report_timestamp_not_latest:
  "sessionActivity activeWorld =
     Some [\<lparr>a_id = 1, a_personId = 1, a_dateTime = 105\<rparr>,
           \<lparr>a_id = 2, a_personId = 1, a_dateTime = 110\<rparr>,
           \<lparr>a_id = 3, a_personId = 1, a_dateTime = 115\<rparr>] \<and>
   getSessionActivity_sql first_of_group activeWorld =
     Inr [\<lparr>r_personName = Some ''Andy2'', r_personId = Some 1, r_dateTime = 105,
           r_numItems = 3\<rparr>] \<and>
   PrintSessionActivity first_of_group demoDb activeWorld =
     Returned (None, [\<lparr>o_personID = 1, o_personName = ''Andy2'', o_dateTime = Some 105,
                        o_numItems = 3\<rparr>]) activeWorld \<and>
   Max (a_dateTime ` set [\<lparr>a_id = 1, a_personId = 1, a_dateTime = 105\<rparr>,
                          \<lparr>a_id = 2, a_personId = 1, a_dateTime = 110\<rparr>,
                          \<lparr>a_id = 3, a_personId = 1, a_dateTime = 115\<rparr>]) = 115"
  by (simp add: activeWorld_def demoWorld_def demoDb_def preparedStatements_def query_eval
      PrintSessionActivity_def NamedStmt_Query_def next_fault_def consume_def Scan_def)

text \<open>The state of that example is the one the calls of the spec's example lead to.\<close>

lemma activeWorld_reached:
  "world_of (RecordSessionActivity demoDb 1 (tick 5
     (world_of (RecordSessionActivity demoDb 1 (tick 5
        (world_of (RecordSessionActivity demoDb 1 (tick 5
           (world_of (UpsertPerson demoDb 1 ''Andy2''
              (world_of (UpsertPerson demoDb 1 ''Andy'' demoWorld)))))))))))) = activeWorld"
  by (simp add: activeWorld_def demoWorld_def demoDb_def preparedStatements_def tick_def
      UpsertPerson_def RecordSessionActivity_def NamedStmt_Exec_def next_fault_def consume_def
      run_stmt_def updatePerson_sql_def insertPerson_sql_def recordSessionActivity_sql_def
      next_rowid_def)

text \<open>
  C6, amended. With a primary key on \<open>person\<close>, the row of a stored entity counts
  exactly the events recorded for that entity, and its timestamp is the timestamp of
  one of these events. It is the latest one where the engine takes the bare columns
  from the last row of each group and the events were recorded in the order of
  their timestamps.
\<close>

theorem report_count_and_timestamp:
  assumes "sessionActivity w = Some evs" and "person_pk w"
    and "getSessionActivity_sql bare w = Inr rows" and "r \<in> set rows"
    and "r_personId r = Some i"
  shows "r_numItems r = int (length (filter (\<lambda>e. a_personId e = i) evs)) \<and>
         r_dateTime r \<in> a_dateTime ` set (filter (\<lambda>e. a_personId e = i) evs) \<and>
         (bare = last_of_group \<and> sorted (map a_dateTime evs) \<longrightarrow>
            r_dateTime r = Max (a_dateTime ` set (filter (\<lambda>e. a_personId e = i) evs)))"
proof -
  let ?js = "left_outer_join evs (person w)"
  let ?evs = "filter (\<lambda>e. a_personId e = i) evs"
  have d: "distinct (map p_id (person w))" using assms(2) by (simp add: person_pk_def)
  obtain g where g: "g \<in> set (group_by ?js)" and r: "r = select_row bare g"
    using rows_set[OF assms(1,3)] assms(4) by auto
  obtain k where k: "k \<in> group_key ` set ?js" and gk: "g = filter (\<lambda>j. group_key j = k) ?js"
    using g by (auto simp: group_by_member)
  have "r_personId r = k" unfolding r gk by (simp add: select_row_fields bare_row_key[OF k])
  then have ki: "k = Some i" using assms(5) by simp
  have i: "i \<in> p_id ` set (person w)" using k unfolding ki by (rule group_key_stored)
  have ev: "map fst g = ?evs" unfolding gk ki by (rule group_events[OF d i])
  have ne: "g \<noteq> []" unfolding gk by (rule group_nonempty[OF k])
  have cnt: "r_numItems r = int (length ?evs)"
    unfolding r ev[symmetric] by (simp add: select_row_fields)
  have "fst (bare_row bare g) \<in> set (map fst g)"
    using bare_row_member[OF ne, of bare] by simp
  then have mem: "r_dateTime r \<in> a_dateTime ` set ?evs"
    unfolding r ev by (simp add: select_row_fields)
  have mx: "r_dateTime r = Max (a_dateTime ` set ?evs)"
    if b: "bare = last_of_group" and s: "sorted (map a_dateTime evs)"
  proof -
    have "fst (bare_row bare g) = last (map fst g)"
      unfolding b using bare_row_last[OF ne] ne by (simp add: last_map)
    then have l: "r_dateTime r = a_dateTime (last ?evs)"
      unfolding r ev by (simp add: select_row_fields)
    have "sorted (map a_dateTime ?evs)" using s by (rule sorted_filter)
    moreover have "?evs \<noteq> []" using ne ev by auto
    ultimately show ?thesis using l by (simp add: last_is_Max)
  qed
  show ?thesis using cnt mem mx by blast
qed

theorem report_count_and_timestamp_witness:
  "sessionActivity activeWorld =
     Some [\<lparr>a_id = 1, a_personId = 1, a_dateTime = 105\<rparr>,
           \<lparr>a_id = 2, a_personId = 1, a_dateTime = 110\<rparr>,
           \<lparr>a_id = 3, a_personId = 1, a_dateTime = 115\<rparr>] \<and>
   person_pk activeWorld \<and>
   getSessionActivity_sql last_of_group activeWorld =
     Inr [\<lparr>r_personName = Some ''Andy2'', r_personId = Some 1, r_dateTime = 115,
           r_numItems = 3\<rparr>] \<and>
   sorted (map a_dateTime [\<lparr>a_id = 1, a_personId = 1, a_dateTime = 105\<rparr>,
                           \<lparr>a_id = 2, a_personId = 1, a_dateTime = 110\<rparr>,
                           \<lparr>a_id = 3, a_personId = 1, a_dateTime = 115\<rparr>]) \<and>
   r_numItems \<lparr>r_personName = Some ''Andy2'', r_personId = Some 1, r_dateTime = 115,
               r_numItems = 3\<rparr> =
     int (length (filter (\<lambda>e. a_personId e = 1)
        [\<lparr>a_id = 1, a_personId = 1, a_dateTime = 105\<rparr>,
         \<lparr>a_id = 2, a_personId = 1, a_dateTime = 110\<rparr>,
         \<lparr>a_id = 3, a_personId = 1, a_dateTime = 115\<rparr>])) \<and>
   r_dateTime \<lparr>r_personName = Some ''Andy2'', r_personId = Some 1, r_dateTime = 115,
               r_numItems = 3\<rparr> =
     Max (a_dateTime ` set (filter (\<lambda>e. a_personId e = 1)
        [\<lparr>a_id = 1, a_personId = 1, a_dateTime = 105\<rparr>,
         \<lparr>a_id = 2, a_personId = 1, a_dateTime = 110\<rparr>,
         \<lparr>a_id = 3, a_personId = 1, a_dateTime = 115\<rparr>]))"
proof -
  let ?evs = "[\<lparr>a_id = 1, a_personId = 1, a_dateTime = 105\<rparr>,
           \<lparr>a_id = 2, a_personId = 1, a_dateTime = 110\<rparr>,
           \<lparr>a_id = 3, a_personId = 1, a_dateTime = 115\<rparr>]"
  let ?r = "\<lparr>r_personName = Some ''Andy2'', r_personId = Some 1, r_dateTime = 115,
           r_numItems = 3\<rparr>"
  have s: "sessionActivity activeWorld = Some ?evs" by (simp add: activeWorld_def)
  have pk: "person_pk activeWorld" by (simp add: person_pk_def activeWorld_def)
  have q: "getSessionActivity_sql last_of_group activeWorld = Inr [?r]"
    by (simp add: activeWorld_def demoWorld_def query_eval)
  have m: "?r \<in> set [?r]" by simp
  have i: "r_personId ?r = Some 1" by simp
  have so: "sorted (map a_dateTime ?evs)" by simp
  show ?thesis
    using report_count_and_timestamp[OF s pk q m i] s pk q so by blast
qed

section \<open>What \<open>New\<close> hands out\<close>

lemma PrepareNamed_cases:
  "PrepareNamed st w = (r, w') \<Longrightarrow>
     (case r of Inl e \<Rightarrow> True | Inr st' \<Rightarrow> st' = st \<and> connected w) \<and>
     connected w' = connected w \<and> sessionActivity w' = sessionActivity w \<and>
     person w' = person w \<and> attached w' = attached w"
  by (auto simp: PrepareNamed_def split: if_splits option.splits)

lemma build_loop_Returned:
  "buildPreparedStatements_loop xs db w = Returned (e, db') w' \<Longrightarrow>
     e = None \<and> statements db' = statements db ++ map_of (rev xs) \<and>
     (xs \<noteq> [] \<longrightarrow> connected w) \<and>
     connected w' = connected w \<and> sessionActivity w' = sessionActivity w \<and>
     person w' = person w"
proof (induction xs db w rule: buildPreparedStatements_loop.induct)
  case (1 db w)
  then show ?case by simp
next
  case (2 title sqlCommand rest db w)
  obtain r w1 where p: "PrepareNamed sqlCommand w = (r, w1)" by (cases "PrepareNamed sqlCommand w")
  show ?case
  proof (cases r)
    case (Inl err)
    then show ?thesis using "2.prems" p by simp
  next
    case (Inr st)
    have st: "st = sqlCommand" "connected w" "connected w1 = connected w"
      "sessionActivity w1 = sessionActivity w" "person w1 = person w"
      using PrepareNamed_cases[OF p] Inr by simp_all
    have "buildPreparedStatements_loop rest (db\<lparr>statements := (statements db)(title \<mapsto> st)\<rparr>) w1
            = Returned (e, db') w'"
      using "2.prems" p Inr by simp
    from "2.IH"[OF p[symmetric] Inr this] st
    show ?thesis by (auto simp: map_add_def fun_eq_iff split: option.splits)
  qed
qed

lemma initDbSchema_cases:
  "initDbSchema w = (None, w') \<Longrightarrow>
     sessionActivity w' = Some [] \<and> connected w' = connected w \<and> person w' = person w"
  by (auto simp: initDbSchema_def split: option.splits if_splits)

lemma driver_Open_cases:
  "driver_Open w = (None, w') \<Longrightarrow> connected w' \<and> person w' = person w"
  by (auto simp: driver_Open_def ConnectHook_def split: option.splits if_splits)

text \<open>A handle that \<open>New\<close> returns is open, and opening leaves the persons alone.\<close>

lemma New_opened:
  assumes "New dbFilename w = Returned (Inr db) w'"
  shows "opened db w' \<and> person w' = person w"
proof -
  obtain w1 where r: "sql_Register driverName w = Some w1"
    using assms by (cases "sql_Register driverName w") (simp_all add: New_def)
  have p1: "person w1 = person w" using r by (auto simp: sql_Register_def split: if_splits)
  obtain e w2 where c: "sqlx_Connect driverName (dbURI dbFilename) w1 = (e, w2)"
    by (cases "sqlx_Connect driverName (dbURI dbFilename) w1")
  have e: "e = None" using assms by (cases e) (simp_all add: New_def r c)
  have "driver_Open w1 = (None, w2)"
    using c e by (simp add: sqlx_Connect_def split: if_splits)
  then have c2: "connected w2" "person w2 = person w1" using driver_Open_cases by blast+
  let ?w4 = "snd (DB_Exec (SetMaxIdleConns 10 w2))"
  have c4: "connected ?w4" "person ?w4 = person w2"
    using c2 by (simp_all add: DB_Exec_def SetMaxIdleConns_def)
  obtain e5 w5 where i: "initDbSchema ?w4 = (e5, w5)" by (cases "initDbSchema ?w4")
  have e5: "e5 = None" using assms by (cases e5) (simp_all add: New_def r c e i Let_def)
  have c5: "sessionActivity w5 = Some []" "connected w5" "person w5 = person ?w4"
    using initDbSchema_cases[OF i[unfolded e5]] c4 by simp_all
  have b: "buildPreparedStatements \<lparr>statements = Map.empty\<rparr> w5 = Returned (None, db) w'"
    using assms by (auto simp: New_def r c e i e5 Let_def split: outcome.splits option.splits)
  have f: "statements db = Map.empty ++ map_of (rev preparedStatements)"
    "connected w' = connected w5" "sessionActivity w' = sessionActivity w5" "person w' = person w5"
    using build_loop_Returned[OF b[unfolded buildPreparedStatements_def]] by simp_all
  have "map_of (rev preparedStatements) = map_of preparedStatements"
    by (auto simp: preparedStatements_def fun_eq_iff)
  then show ?thesis using f c5 c4 c2 p1 by (simp add: opened_def)
qed

end
